theory Spec2Isabelle
  imports
    Complex_Main
    "HOL-Library.Sublist"
    "HOL-Library.AList"
    "HOL-Library.Char_ord"
    "HOL-Library.List_Lexorder"
    "HOL-Library.Product_Lexorder"
begin

section \<open>Tables\<close>

text \<open>
  The dashboard works on pandas data frames. A frame is modelled row by row: the ordered
  list of its column labels, and one row per index label, each row holding its cells as an
  association list from column label to cell. A cell is an integer-valued number, a text,
  or the missing value. Column labels are strings of bytes (UTF-8); comparing, searching and
  ordering bytes agrees with what Python does on the code points.

  Numbers are unbounded integers: licence counts are far from the limits of a 64-bit
  integer, and fractional or non-finite raw values are outside the model.
\<close>

datatype cell = Num int | Txt string | NaN

record row =
  idx :: nat
  cells :: "(string \<times> cell) list"

record dataframe =
  columns :: "string list"
  rows :: "row list"

datatype error = KeyError string | TypeError | ValueError

abbreviation Total :: string where "Total \<equiv> ''Total''"
abbreviation Total_Licences :: string where "Total_Licences \<equiv> ''Total_Licences''"
abbreviation Female_Licences :: string where "Female_Licences \<equiv> ''Female_Licences''"
abbreviation Male_Licences :: string where "Male_Licences \<equiv> ''Male_Licences''"
abbreviation Code_Commune :: string where "Code_Commune \<equiv> ''Code Commune''"

text \<open>The three accented labels, in UTF-8: \<open>e\<close> with acute accent is the bytes C3 A9.\<close>

abbreviation Federation :: string where
  "Federation \<equiv> CHR ''F'' # CHR 0xC3 # CHR 0xA9 # CHR ''d'' # CHR 0xC3 # CHR 0xA9 # ''ration''"
abbreviation Region :: string where
  "Region \<equiv> CHR ''R'' # CHR 0xC3 # CHR 0xA9 # ''gion''"
abbreviation Departement :: string where
  "Departement \<equiv> CHR ''D'' # CHR 0xC3 # CHR 0xA9 # ''partement''"

text \<open>\<open>pd.DataFrame()\<close>: no column, no row.\<close>

definition empty_frame :: dataframe where
  "empty_frame = \<lparr>columns = [], rows = []\<rparr>"

text \<open>\<open>df.empty\<close>: one of the two axes has length 0.\<close>

definition df_empty :: "dataframe \<Rightarrow> bool" where
  "df_empty df \<longleftrightarrow> columns df = [] \<or> rows df = []"

text \<open>Reading one cell of a row; a row that has no cell under the label reads as missing.\<close>

definition cell_at :: "row \<Rightarrow> string \<Rightarrow> cell" where
  "cell_at r c = (case map_of (cells r) c of Some v \<Rightarrow> v | None \<Rightarrow> NaN)"

text \<open>
  \<open>df[c] = e\<close>, where \<open>e\<close> is computed row by row from the same frame (pandas aligns the
  right-hand side on the index): an existing column is overwritten in place, a new one is
  appended.
\<close>

definition assign :: "string \<Rightarrow> (row \<Rightarrow> cell) \<Rightarrow> dataframe \<Rightarrow> dataframe" where
  "assign c f df =
     \<lparr>columns = (if c \<in> set (columns df) then columns df else columns df @ [c]),
      rows = map (\<lambda>r. r\<lparr>cells := AList.update c (f r) (cells r)\<rparr>) (rows df)\<rparr>"

text \<open>\<open>df.rename(columns={old: new})\<close>.\<close>

definition rename_label :: "string \<Rightarrow> string \<Rightarrow> string \<Rightarrow> string" where
  "rename_label old new c = (if c = old then new else c)"

definition rename :: "string \<Rightarrow> string \<Rightarrow> dataframe \<Rightarrow> dataframe" where
  "rename old new df =
     \<lparr>columns = map (rename_label old new) (columns df),
      rows = map (\<lambda>r. r\<lparr>cells := map (\<lambda>(k, v). (rename_label old new k, v)) (cells r)\<rparr>)
               (rows df)\<rparr>"

section \<open>Data preparation (utils/prep.py)\<close>

text \<open>
  \<open>pd.to_numeric(..., errors='coerce')\<close> on one cell. How pandas reads a text as a number is
  a parameter \<open>parse\<close>: the integer the text denotes, or \<open>None\<close> when it is not numeric.
\<close>

fun to_numeric :: "(string \<Rightarrow> int option) \<Rightarrow> cell \<Rightarrow> cell" where
  "to_numeric parse (Num n) = Num n"
| "to_numeric parse NaN = NaN"
| "to_numeric parse (Txt s) = (case parse s of Some n \<Rightarrow> Num n | None \<Rightarrow> NaN)"

text \<open>
  One round of the loop \<open>df[col] = pd.to_numeric(df[col], errors='coerce')\<close>. \<open>df[col]\<close>
  raises KeyError when the label is absent; when the label occurs twice it is a frame, which
  \<open>to_numeric\<close> refuses with TypeError.
\<close>

definition to_numeric_col :: "(string \<Rightarrow> int option) \<Rightarrow> string \<Rightarrow> dataframe \<Rightarrow> error + dataframe" where
  "to_numeric_col parse col df =
     (case count_list (columns df) col of
        0 \<Rightarrow> Inl (KeyError col)
      | Suc 0 \<Rightarrow> Inr (assign col (\<lambda>r. to_numeric parse (cell_at r col)) df)
      | Suc (Suc _) \<Rightarrow> Inl TypeError)"

fun to_numeric_loop :: "(string \<Rightarrow> int option) \<Rightarrow> string list \<Rightarrow> dataframe \<Rightarrow> error + dataframe" where
  "to_numeric_loop parse [] df = Inr df"
| "to_numeric_loop parse (col # cols) df =
     (case to_numeric_col parse col df of
        Inl e \<Rightarrow> Inl e
      | Inr df' \<Rightarrow> to_numeric_loop parse cols df')"

text \<open>
  \<open>.fillna(0).astype(int)\<close> on one cell. A text cannot be cast; none is left in a column
  that \<open>to_numeric\<close> has returned.
\<close>

fun fillna_astype_int :: "cell \<Rightarrow> cell option" where
  "fillna_astype_int (Num n) = Some (Num n)"
| "fillna_astype_int NaN = Some (Num 0)"
| "fillna_astype_int (Txt s) = None"

definition castable :: "string list \<Rightarrow> dataframe \<Rightarrow> bool" where
  "castable cols df \<longleftrightarrow>
     list_all (\<lambda>r. list_all (\<lambda>c. fillna_astype_int (cell_at r c) \<noteq> None) cols) (rows df)"

text \<open>
  \<open>df[cols] = df[cols].fillna(0).astype(int)\<close>: the cast raises ValueError when one of the
  cells cannot be cast, and otherwise every cell of these columns is replaced.
\<close>

definition cast_cell :: "cell \<Rightarrow> cell" where
  "cast_cell x = (case fillna_astype_int x of Some v \<Rightarrow> v | None \<Rightarrow> x)"

definition fillna_astype_int_cols :: "string list \<Rightarrow> dataframe \<Rightarrow> error + dataframe" where
  "fillna_astype_int_cols cols df =
     (if castable cols df
      then Inr (fold (\<lambda>c. assign c (\<lambda>r. cast_cell (cell_at r c))) cols df)
      else Inl ValueError)"

text \<open>
  \<open>df[cols].sum(axis=1)\<close> on one row, for columns of integers: missing values are skipped.
\<close>

fun num_val :: "cell \<Rightarrow> int" where
  "num_val (Num n) = n"
| "num_val _ = 0"

definition row_sum :: "string list \<Rightarrow> row \<Rightarrow> cell" where
  "row_sum cols r = Num (sum_list (map (\<lambda>c. num_val (cell_at r c)) cols))"

text \<open>
  The function returns a bare empty frame on an empty input and a triple otherwise; the
  two shapes are the two constructors.
\<close>

datatype prep_result = Frame dataframe | Triple dataframe "string list" "string list"

definition age_columns :: "dataframe \<Rightarrow> string list" where
  "age_columns df = filter (\<lambda>col. sublist '' - '' col) (columns df)"

definition clean_and_prep_data :: "(string \<Rightarrow> int option) \<Rightarrow> dataframe \<Rightarrow> error + prep_result" where
  "clean_and_prep_data parse df_raw =
     (if df_empty df_raw then Inr (Frame empty_frame)
      else
        let df = rename Total Total_Licences df_raw;
            age_cols = age_columns df
        in case to_numeric_loop parse (age_cols @ [Total_Licences]) df of
             Inl e \<Rightarrow> Inl e
           | Inr df1 \<Rightarrow>
               (case fillna_astype_int_cols (age_cols @ [Total_Licences]) df1 of
                  Inl e \<Rightarrow> Inl e
                | Inr df2 \<Rightarrow>
                    let f_cols = filter (\<lambda>col. prefix ''F - '' col) age_cols;
                        h_cols = filter (\<lambda>col. prefix ''H - '' col) age_cols;
                        df3 = assign Female_Licences (row_sum f_cols) df2;
                        df4 = assign Male_Licences (row_sum h_cols) df3
                    in Inr (Triple df4 f_cols h_cols)))"

text \<open>
  The call in app.py, line 25: \<open>df_main, f_cols, h_cols = clean_and_prep_data(raw_df)\<close>.
  Unpacking a bare frame iterates over its column labels; the frame the function returns
  bare is \<open>pd.DataFrame()\<close>, which has none, so the three targets cannot be filled and
  Python raises ValueError.
\<close>

definition prep_call ::
  "(string \<Rightarrow> int option) \<Rightarrow> dataframe \<Rightarrow> error + (dataframe \<times> string list \<times> string list)" where
  "prep_call parse raw_df =
     (case clean_and_prep_data parse raw_df of
        Inl e \<Rightarrow> Inl e
      | Inr (Triple df f_cols h_cols) \<Rightarrow> Inr (df, f_cols, h_cols)
      | Inr (Frame fr) \<Rightarrow> Inl ValueError)"

section \<open>Filtering (app.py, lines 69 to 95)\<close>

text \<open>
  The filtering block rebinds and mutates data frames, so it is modelled on a store: the
  heap is the list of the frames allocated so far, an address is a position in it, and the
  variables \<open>df_main\<close> and \<open>df_filtered\<close> hold addresses (the fields
  \<open>df_main_addr\<close> and \<open>df_filtered_addr\<close>). \<open>copy()\<close> and indexing by a
  boolean mask allocate a new frame; assigning a column writes into the frame the variable
  points to. The two lists kept in \<open>st.session_state\<close> are part of the state.

  From here on frames have distinct column labels: \<open>read_csv\<close> makes them so and the
  preparation keeps them so (lemma \<open>prep_distinct_columns\<close>).
\<close>

datatype gender = All | Male | Female

record selection =
  selected_feds :: "cell list"
  selected_regions :: "cell list"
  selected_gender :: gender

record state =
  heap :: "dataframe list"
  df_main_addr :: nat
  df_filtered_addr :: nat
  session_f_cols :: "string list"
  session_h_cols :: "string list"

text \<open>\<open>df_filtered = df_main.copy()\<close>\<close>

definition copy_main :: "state \<Rightarrow> state" where
  "copy_main s =
     s\<lparr>heap := heap s @ [heap s ! df_main_addr s], df_filtered_addr := length (heap s)\<rparr>"

text \<open>\<open>df[mask]\<close>: a new frame with the rows where the mask holds.\<close>

definition boolean_index :: "(row \<Rightarrow> bool) \<Rightarrow> dataframe \<Rightarrow> dataframe" where
  "boolean_index keep df = df\<lparr>rows := filter keep (rows df)\<rparr>"

text \<open>\<open>df_filtered = df_filtered[df_filtered[col].isin(selected)]\<close>\<close>

definition filter_isin :: "string \<Rightarrow> cell list \<Rightarrow> state \<Rightarrow> error + state" where
  "filter_isin col selected s =
     (let df = heap s ! df_filtered_addr s in
      if col \<notin> set (columns df) then Inl (KeyError col)
      else Inr (s\<lparr>heap := heap s @ [boolean_index (\<lambda>r. cell_at r col \<in> set selected) df],
                  df_filtered_addr := length (heap s)\<rparr>))"

text \<open>\<open>df_filtered[c] = e\<close>: the frame at the address is overwritten in place.\<close>

definition set_column :: "string \<Rightarrow> (row \<Rightarrow> cell) \<Rightarrow> state \<Rightarrow> state" where
  "set_column c f s =
     s\<lparr>heap := (heap s)[df_filtered_addr s := assign c f (heap s ! df_filtered_addr s)]\<rparr>"

text \<open>\<open>for col in cols: if col in df_filtered.columns: df_filtered[col] = 0\<close>\<close>

fun zero_columns :: "string list \<Rightarrow> state \<Rightarrow> state" where
  "zero_columns [] s = s"
| "zero_columns (col # cols) s =
     zero_columns cols
       (if col \<in> set (columns (heap s ! df_filtered_addr s))
        then set_column col (\<lambda>r. Num 0) s else s)"

text \<open>
  The gender block. Reading the aggregate column of the kept gender raises KeyError when
  the frame has no such column.
\<close>

definition gender_block :: "gender \<Rightarrow> state \<Rightarrow> error + state" where
  "gender_block g s =
     (case g of
        Male \<Rightarrow>
          if Male_Licences \<notin> set (columns (heap s ! df_filtered_addr s))
          then Inl (KeyError Male_Licences)
          else Inr (zero_columns (session_f_cols s)
                 (set_column Female_Licences (\<lambda>r. Num 0)
                   (set_column Total_Licences (\<lambda>r. cell_at r Male_Licences) s)))
      | Female \<Rightarrow>
          if Female_Licences \<notin> set (columns (heap s ! df_filtered_addr s))
          then Inl (KeyError Female_Licences)
          else Inr (zero_columns (session_h_cols s)
                 (set_column Male_Licences (\<lambda>r. Num 0)
                   (set_column Total_Licences (\<lambda>r. cell_at r Female_Licences) s)))
      | All \<Rightarrow> Inr s)"

definition filtering_logic :: "selection \<Rightarrow> state \<Rightarrow> error + state" where
  "filtering_logic sel s0 =
     (let s1 = copy_main s0 in
      case (if selected_feds sel \<noteq> [] then filter_isin Federation (selected_feds sel) s1
            else Inr s1) of
        Inl e \<Rightarrow> Inl e
      | Inr s2 \<Rightarrow>
          (case (if selected_regions sel \<noteq> [] then filter_isin Region (selected_regions sel) s2
                 else Inr s2) of
             Inl e \<Rightarrow> Inl e
           | Inr s3 \<Rightarrow> gender_block (selected_gender sel) s3))"

text \<open>
  The Filter Engine as a function of the cleaned frame: the block is run in a store that
  holds the cleaned frame only, and the frame \<open>df_filtered\<close> points to is read back.
\<close>

definition initial_state :: "string list \<Rightarrow> string list \<Rightarrow> dataframe \<Rightarrow> state" where
  "initial_state f_cols h_cols df =
     \<lparr>heap = [df], df_main_addr = 0, df_filtered_addr = 0,
      session_f_cols = f_cols, session_h_cols = h_cols\<rparr>"

definition filter_engine :: "string list \<Rightarrow> string list \<Rightarrow> selection \<Rightarrow> dataframe \<Rightarrow> error + dataframe" where
  "filter_engine f_cols h_cols sel df =
     (case filtering_logic sel (initial_state f_cols h_cols df) of
        Inl e \<Rightarrow> Inl e
      | Inr s \<Rightarrow> Inr (heap s ! df_filtered_addr s))"

section \<open>Aggregation builders (utils/viz.py)\<close>

text \<open>
  Each builder is modelled up to the table it hands to the charting library; the figure
  itself, its axis range and its tick labels are outside the model.
\<close>

text \<open>\<open>df[c]\<close>: the column as a series, KeyError when there is no such column.\<close>

definition getitem :: "dataframe \<Rightarrow> string \<Rightarrow> error + cell list" where
  "getitem df c =
     (if c \<in> set (columns df) then Inr (map (\<lambda>r. cell_at r c) (rows df))
      else Inl (KeyError c))"

text \<open>
  \<open>Series.sum()\<close>: missing values are skipped. A column that holds text has no numeric sum:
  the model reports TypeError there, and no statement below is about such a column.
\<close>

fun series_sum :: "cell list \<Rightarrow> error + int" where
  "series_sum [] = Inr 0"
| "series_sum (Num n # xs) = (case series_sum xs of Inl e \<Rightarrow> Inl e | Inr s \<Rightarrow> Inr (n + s))"
| "series_sum (NaN # xs) = series_sum xs"
| "series_sum (Txt t # xs) = Inl TypeError"

text \<open>Running a fallible step over a list, stopping at the first error.\<close>

fun collect :: "('a \<Rightarrow> error + 'b) \<Rightarrow> 'a list \<Rightarrow> error + 'b list" where
  "collect f [] = Inr []"
| "collect f (x # xs) =
     (case f x of
        Inl e \<Rightarrow> Inl e
      | Inr y \<Rightarrow> (case collect f xs of Inl e \<Rightarrow> Inl e | Inr ys \<Rightarrow> Inr (y # ys)))"

subsection \<open>KPI metrics\<close>


subsection \<open>Grouping\<close>

text \<open>
  \<open>groupby\<close> drops the rows whose key is missing and orders the groups by key: numbers
  before texts, numbers by value, texts by code point.
\<close>

fun cell_rank :: "cell \<Rightarrow> nat \<times> int \<times> string" where
  "cell_rank (Num n) = (0, n, [])"
| "cell_rank (Txt s) = (1, 0, s)"
| "cell_rank NaN = (2, 0, [])"

definition group_keys :: "cell list \<Rightarrow> cell list" where
  "group_keys xs = sort_key cell_rank (remdups (filter (\<lambda>x. x \<noteq> NaN) xs))"

definition group_rows :: "string \<Rightarrow> cell \<Rightarrow> dataframe \<Rightarrow> row list" where
  "group_rows col k df = filter (\<lambda>r. cell_at r col = k) (rows df)"

subsection \<open>Choropleth map: aggregation by department\<close>

record dept_summary =
  dept_code :: cell
  dept_total_licences :: int
  dept_nb_associations :: nat

text \<open>\<open>'count'\<close> counts the cells of the column that are not missing.\<close>

definition series_count :: "cell list \<Rightarrow> nat" where
  "series_count xs = length (filter (\<lambda>x. x \<noteq> NaN) xs)"

definition plot_choropleth_map :: "dataframe \<Rightarrow> error + dept_summary list" where
  "plot_choropleth_map df_filtered =
     (if Departement \<notin> set (columns df_filtered) then Inl (KeyError Departement)
      else if Total_Licences \<notin> set (columns df_filtered) then Inl (KeyError Total_Licences)
      else if Code_Commune \<notin> set (columns df_filtered) then Inl (KeyError Code_Commune)
      else collect
             (\<lambda>k. let grp = group_rows Departement k df_filtered in
                  case series_sum (map (\<lambda>r. cell_at r Total_Licences) grp) of
                    Inl e \<Rightarrow> Inl e
                  | Inr n \<Rightarrow>
                      Inr \<lparr>dept_code = k, dept_total_licences = n,
                           dept_nb_associations =
                             series_count (map (\<lambda>r. cell_at r Code_Commune) grp)\<rparr>)
             (group_keys (map (\<lambda>r. cell_at r Departement) (rows df_filtered))))"

subsection \<open>Age pyramid\<close>

text \<open>\<open>s.replace(pat, '')\<close> for a non-empty \<open>pat\<close>: every occurrence is removed, left to right.\<close>

function str_remove :: "string \<Rightarrow> string \<Rightarrow> string" where
  "str_remove pat [] = []"
| "str_remove pat (c # s) =
     (if pat \<noteq> [] \<and> prefix pat (c # s) then str_remove pat (drop (length pat) (c # s))
      else c # str_remove pat s)"
  by pat_completeness auto
termination
  by (relation "measure (\<lambda>(pat, s). length s)") (auto simp: neq_Nil_conv)

record pyramid_row =
  tranche :: string
  licences :: int
  sexe :: string
  abs_licences :: int

datatype figure = Placeholder string | Pyramid "pyramid_row list"

text \<open>\<open>df[cols].sum()\<close>: the sum of each column, labelled by the column.\<close>

definition column_sums :: "string list \<Rightarrow> dataframe \<Rightarrow> error + (string \<times> int) list" where
  "column_sums cols df =
     (case filter (\<lambda>c. c \<notin> set (columns df)) cols of
        c # _ \<Rightarrow> Inl (KeyError c)
      | [] \<Rightarrow>
          collect (\<lambda>c. case series_sum (map (\<lambda>r. cell_at r c) (rows df)) of
                         Inl e \<Rightarrow> Inl e
                       | Inr n \<Rightarrow> Inr (c, n))
                  cols)"

text \<open>\<open>data_agg[cols]\<close>: for each label asked for, the entries of the series under it.\<close>

definition select_labels :: "string list \<Rightarrow> (string \<times> int) list \<Rightarrow> (string \<times> int) list" where
  "select_labels cols agg = concat (map (\<lambda>c. filter (\<lambda>(k, n). k = c) agg) cols)"

definition plot_age_pyramid :: "string list \<Rightarrow> string list \<Rightarrow> dataframe \<Rightarrow> error + figure" where
  "plot_age_pyramid f_cols h_cols df_filtered =
     (if f_cols = [] \<or> h_cols = [] then Inr (Placeholder ''Age pyramid data not available.'')
      else if df_empty df_filtered then Inr (Placeholder ''No data for this selection.'')
      else
        case column_sums (f_cols @ h_cols) df_filtered of
          Inl e \<Rightarrow> Inl e
        | Inr data_agg \<Rightarrow>
            let data_f =
                  map (\<lambda>(c, n). \<lparr>tranche = str_remove ''F - '' c, licences = n,
                                 sexe = ''Female'', abs_licences = n\<rparr>)
                      (select_labels f_cols data_agg);
                data_h0 =
                  map (\<lambda>(c, n). \<lparr>tranche = str_remove ''H - '' c, licences = n,
                                 sexe = ''Male'', abs_licences = n\<rparr>)
                      (select_labels h_cols data_agg);
                data_h = map (\<lambda>e. e\<lparr>licences := - licences e\<rparr>) data_h0;
                data_pyramide = data_f @ data_h
            in if data_pyramide = [] then Inr (Placeholder ''No age data to display.'')
               else Inr (Pyramid data_pyramide))"

subsection \<open>Top federations\<close>

text \<open>\<open>df.groupby(key)[col].sum()\<close>\<close>

definition groupby_sum :: "string \<Rightarrow> string \<Rightarrow> dataframe \<Rightarrow> error + (cell \<times> int) list" where
  "groupby_sum key col df =
     (if key \<notin> set (columns df) then Inl (KeyError key)
      else if col \<notin> set (columns df) then Inl (KeyError col)
      else collect
             (\<lambda>k. case series_sum (map (\<lambda>r. cell_at r col) (group_rows key k df)) of
                    Inl e \<Rightarrow> Inl e
                  | Inr n \<Rightarrow> Inr (k, n))
             (group_keys (map (\<lambda>r. cell_at r key) (rows df))))"

text \<open>
  \<open>Series.value_counts()\<close>: the number of occurrences of each value that is not missing,
  largest first, equal counts in order of first appearance.
\<close>

definition value_counts :: "cell list \<Rightarrow> (cell \<times> int) list" where
  "value_counts xs =
     sort_key (\<lambda>(k, n). - n)
       (map (\<lambda>k. (k, int (count_list xs k)))
            (rev (remdups (rev (filter (\<lambda>x. x \<noteq> NaN) xs)))))"

text \<open>\<open>nlargest(n)\<close>: the \<open>n\<close> largest values, largest first, ties in their order in the series.\<close>

definition nlargest :: "nat \<Rightarrow> (cell \<times> int) list \<Rightarrow> (cell \<times> int) list" where
  "nlargest n xs = take n (sort_key (\<lambda>(k, v). - v) xs)"

text \<open>\<open>sort_values(ascending=True)\<close> on the value column.\<close>

definition sort_values :: "(cell \<times> int) list \<Rightarrow> (cell \<times> int) list" where
  "sort_values xs = sort_key snd xs"

definition plot_top_federations :: "dataframe \<Rightarrow> string \<Rightarrow> error + (cell \<times> int) list" where
  "plot_top_federations df_filtered by =
     (if by = ''licences'' then
        (case groupby_sum Federation Total_Licences df_filtered of
           Inl e \<Rightarrow> Inl e
         | Inr df_agg \<Rightarrow> Inr (sort_values (nlargest 15 df_agg)))
      else
        (case getitem df_filtered Federation of
           Inl e \<Rightarrow> Inl e
         | Inr col \<Rightarrow> Inr (sort_values (nlargest 15 (value_counts col)))))"

section \<open>Notions used to state the properties\<close>

text \<open>An integer column: the label is a column of the frame and every row holds a number there.\<close>

definition int_column :: "dataframe \<Rightarrow> string \<Rightarrow> bool" where
  "int_column df c \<longleftrightarrow>
     c \<in> set (columns df) \<and>
     list_all (\<lambda>r. case cell_at r c of Num n \<Rightarrow> True | _ \<Rightarrow> False) (rows df)"

text \<open>
  The integer a raw cell is expected to hold after cleaning: the number itself, and 0 for a
  missing value or a text that is not numeric.
\<close>

definition coerced :: "(string \<Rightarrow> int option) \<Rightarrow> cell \<Rightarrow> int" where
  "coerced parse x =
     (case x of
        Num n \<Rightarrow> n
      | NaN \<Rightarrow> 0
      | Txt s \<Rightarrow> (case parse s of Some n \<Rightarrow> n | None \<Rightarrow> 0))"

text \<open>Overwriting one cell of a row by a function of its old value.\<close>

definition set_cell :: "string \<Rightarrow> (cell \<Rightarrow> cell) \<Rightarrow> row \<Rightarrow> row" where
  "set_cell c h r = r\<lparr>cells := AList.update c (h (cell_at r c)) (cells r)\<rparr>"

text \<open>
  The frame the preparation returns when none of its steps raises, and what it does to one
  row: the steps of \<open>clean_and_prep_data\<close> in sequence, without the error branches.
\<close>

definition prepared :: "(string \<Rightarrow> int option) \<Rightarrow> dataframe \<Rightarrow> dataframe" where
  "prepared parse df_raw =
     (let df = rename Total Total_Licences df_raw;
          cols = age_columns df @ [Total_Licences]
      in assign Male_Licences (row_sum (filter (prefix ''H - '') (age_columns df)))
           (assign Female_Licences (row_sum (filter (prefix ''F - '') (age_columns df)))
              (fold (\<lambda>c. assign c (\<lambda>r. cast_cell (cell_at r c))) cols
                 (fold (\<lambda>c. assign c (\<lambda>r. to_numeric parse (cell_at r c))) cols df))))"

definition prepared_row :: "(string \<Rightarrow> int option) \<Rightarrow> dataframe \<Rightarrow> row \<Rightarrow> row" where
  "prepared_row parse df_raw r =
     (let r1 = r\<lparr>cells := map (\<lambda>(k, v). (rename_label Total Total_Licences k, v)) (cells r)\<rparr>;
          cols = age_columns df_raw @ [Total_Licences];
          r2 = fold (\<lambda>c. set_cell c (to_numeric parse)) cols r1;
          r3 = fold (\<lambda>c. set_cell c cast_cell) cols r2;
          r4 = r3\<lparr>cells := AList.update Female_Licences
                 (row_sum (filter (prefix ''F - '') (age_columns df_raw)) r3) (cells r3)\<rparr>
      in r4\<lparr>cells := AList.update Male_Licences
                 (row_sum (filter (prefix ''H - '') (age_columns df_raw)) r4) (cells r4)\<rparr>)"

text \<open>The rows of one department.\<close>

definition dept_rows :: "dataframe \<Rightarrow> cell \<Rightarrow> row list" where
  "dept_rows df k = filter (\<lambda>r. cell_at r Departement = k) (rows df)"

section \<open>Example frames\<close>








definition cleaned_example :: dataframe where
  "cleaned_example =
     \<lparr>columns = [Federation, Total_Licences, ''F - 1 ans'', ''H - 1 ans'',
                 Female_Licences, Male_Licences],
      rows = [\<lparr>idx = 0, cells = [(Federation, Txt ''Judo''), (Total_Licences, Num 0),
                                 (''F - 1 ans'', Num 12), (''H - 1 ans'', Num 0),
                                 (Female_Licences, Num 12), (Male_Licences, Num 0)]\<rparr>,
              \<lparr>idx = 1, cells = [(Federation, Txt ''Tennis''), (Total_Licences, Num 7),
                                 (''F - 1 ans'', Num 0), (''H - 1 ans'', Num 4),
                                 (Female_Licences, Num 0), (Male_Licences, Num 4)]\<rparr>]\<rparr>"

definition missing_commune_example :: dataframe where
  "missing_commune_example =
     \<lparr>columns = [Departement, Code_Commune, Total_Licences],
      rows = [\<lparr>idx = 0, cells = [(Departement, Txt ''01''), (Code_Commune, Txt ''01001''),
                                 (Total_Licences, Num 10)]\<rparr>,
              \<lparr>idx = 1, cells = [(Departement, Txt ''01''), (Code_Commune, NaN),
                                 (Total_Licences, Num 20)]\<rparr>]\<rparr>"


text \<open>
  The lists of bracket columns the preparation discovers: female labels start with
  \<open>F - \<close>, male labels with \<open>H - \<close>.
\<close>

definition bracket_lists :: "string list \<Rightarrow> string list \<Rightarrow> bool" where
  "bracket_lists f_cols h_cols \<longleftrightarrow>
     list_all (prefix ''F - '') f_cols \<and> list_all (prefix ''H - '') h_cols"

text \<open>The rows a selection keeps: an empty selection keeps every row.\<close>

definition passes :: "selection \<Rightarrow> row \<Rightarrow> bool" where
  "passes sel r \<longleftrightarrow>
     (selected_feds sel = [] \<or> cell_at r Federation \<in> set (selected_feds sel)) \<and>
     (selected_regions sel = [] \<or> cell_at r Region \<in> set (selected_regions sel))"

text \<open>The effect of the loop \<open>zero_columns\<close> on the frame it writes to.\<close>

definition zero_cols :: "string list \<Rightarrow> dataframe \<Rightarrow> dataframe" where
  "zero_cols cols df =
     fold (\<lambda>c d. if c \<in> set (columns d) then assign c (\<lambda>r. Num 0) d else d) cols df"

text \<open>The effect of the gender block on the frame it writes to.\<close>

definition gender_frame :: "gender \<Rightarrow> string list \<Rightarrow> string list \<Rightarrow> dataframe \<Rightarrow> dataframe" where
  "gender_frame g f_cols h_cols df =
     (case g of
        Male \<Rightarrow>
          zero_cols f_cols
            (assign Female_Licences (\<lambda>r. Num 0)
               (assign Total_Licences (\<lambda>r. cell_at r Male_Licences) df))
      | Female \<Rightarrow>
          zero_cols h_cols
            (assign Male_Licences (\<lambda>r. Num 0)
               (assign Total_Licences (\<lambda>r. cell_at r Female_Licences) df))
      | All \<Rightarrow> df)"

text \<open>The same on one row: \<open>agg\<close> is the aggregate kept, \<open>other\<close> the aggregate zeroed.\<close>

definition gender_row :: "string \<Rightarrow> string \<Rightarrow> string list \<Rightarrow> row \<Rightarrow> row" where
  "gender_row agg other zeroed r =
     fold (\<lambda>c. set_cell c (\<lambda>x. Num 0)) zeroed
       (set_cell other (\<lambda>x. Num 0)
          (r\<lparr>cells := AList.update Total_Licences (cell_at r agg) (cells r)\<rparr>))"

text \<open>The columns the gender block overwrites.\<close>

definition overwritten :: "gender \<Rightarrow> string list \<Rightarrow> string list \<Rightarrow> string set" where
  "overwritten g f_cols h_cols =
     (case g of
        Male \<Rightarrow> {Total_Licences, Female_Licences} \<union> set f_cols
      | Female \<Rightarrow> {Total_Licences, Male_Licences} \<union> set h_cols
      | All \<Rightarrow> {})"

text \<open>When the filtering block raises nothing: the columns it reads exist.\<close>

definition filter_columns_present :: "selection \<Rightarrow> dataframe \<Rightarrow> bool" where
  "filter_columns_present sel df \<longleftrightarrow>
     (selected_feds sel = [] \<or> Federation \<in> set (columns df)) \<and>
     (selected_regions sel = [] \<or> Region \<in> set (columns df)) \<and>
     (case selected_gender sel of
        Male \<Rightarrow> Male_Licences \<in> set (columns df)
      | Female \<Rightarrow> Female_Licences \<in> set (columns df)
      | All \<Rightarrow> True)"

text \<open>
  What the gender block does to one row of a frame whose columns are \<open>cols\<close>: the bracket
  columns it zeroes are those the frame has.
\<close>

definition gender_fn :: "gender \<Rightarrow> string list \<Rightarrow> string list \<Rightarrow> string list \<Rightarrow> row \<Rightarrow> row" where
  "gender_fn g f_cols h_cols cols r =
     (case g of
        Male \<Rightarrow>
          gender_row Male_Licences Female_Licences
            (filter (\<lambda>c. c \<in> set cols \<union> {Total_Licences, Female_Licences}) f_cols) r
      | Female \<Rightarrow>
          gender_row Female_Licences Male_Licences
            (filter (\<lambda>c. c \<in> set cols \<union> {Total_Licences, Male_Licences}) h_cols) r
      | All \<Rightarrow> r)"



definition female_all :: selection where
  "female_all = \<lparr>selected_feds = [], selected_regions = [], selected_gender = Female\<rparr>"



definition female_all_filtered :: dataframe where
  "female_all_filtered =
     \<lparr>columns = [Federation, Total_Licences, ''F - 1 ans'', ''H - 1 ans'',
                 Female_Licences, Male_Licences],
      rows = [\<lparr>idx = 0, cells = [(Federation, Txt ''Judo''), (Total_Licences, Num 12),
                                 (''F - 1 ans'', Num 12), (''H - 1 ans'', Num 0),
                                 (Female_Licences, Num 12), (Male_Licences, Num 0)]\<rparr>,
              \<lparr>idx = 1, cells = [(Federation, Txt ''Tennis''), (Total_Licences, Num 0),
                                 (''F - 1 ans'', Num 0), (''H - 1 ans'', Num 0),
                                 (Female_Licences, Num 0), (Male_Licences, Num 0)]\<rparr>]\<rparr>"

text \<open>The store after the filtering block has run on the cleaned example, females only.\<close>

definition female_all_final :: state where
  "female_all_final =
     \<lparr>heap = [cleaned_example, female_all_filtered], df_main_addr = 0, df_filtered_addr = 1,
      session_f_cols = [''F - 1 ans''], session_h_cols = [''H - 1 ans'']\<rparr>"





definition top_example :: dataframe where
  "top_example =
     \<lparr>columns = [Federation, Total_Licences],
      rows = [\<lparr>idx = 0, cells = [(Federation, Txt ''Football''), (Total_Licences, Num 100)]\<rparr>,
              \<lparr>idx = 1, cells = [(Federation, Txt ''Tennis''), (Total_Licences, Num 50)]\<rparr>,
              \<lparr>idx = 2, cells = [(Federation, Txt ''Football''), (Total_Licences, Num 30)]\<rparr>,
              \<lparr>idx = 3, cells = [(Federation, Txt ''Judo''), (Total_Licences, Num 10)]\<rparr>]\<rparr>"

section \<open>Sums of columns\<close>

lemma series_sum_Inr: "series_sum xs = Inr s \<Longrightarrow> s = sum_list (map num_val xs)"
  by (induction xs arbitrary: s rule: series_sum.induct) (auto split: sum.splits)

lemma series_sum_no_text:
  "\<forall>x\<in>set xs. \<forall>t. x \<noteq> Txt t \<Longrightarrow> series_sum xs = Inr (sum_list (map num_val xs))"
  by (induction xs rule: series_sum.induct) auto

lemma int_column_no_text:
  "int_column df c \<Longrightarrow> \<forall>x\<in>set (map (\<lambda>r. cell_at r c) (rows df)). \<forall>t. x \<noteq> Txt t"
  by (auto simp: int_column_def list_all_iff split: cell.splits)

lemma int_column_sum:
  "int_column df c \<Longrightarrow>
     series_sum (map (\<lambda>r. cell_at r c) (rows df)) =
       Inr (sum_list (map (\<lambda>r. num_val (cell_at r c)) (rows df)))"
  using series_sum_no_text [OF int_column_no_text, of df c] by (simp add: comp_def)

section \<open>Data preparation: what the cleaning does\<close>

subsection \<open>Cells under assignment and renaming\<close>

lemma cell_at_update:
  "cell_at (r\<lparr>cells := AList.update c v (cells r)\<rparr>) c' = (if c' = c then v else cell_at r c')"
  by (simp add: cell_at_def update_conv')

lemma cell_at_update_gen:
  "cell_at (r\<lparr>cells := AList.update c v al\<rparr>) c' =
     (if c' = c then v else cell_at (r\<lparr>cells := al\<rparr>) c')"
  by (simp add: cell_at_def update_conv')

lemma cell_at_cells_eq: "cell_at (r\<lparr>cells := cells r'\<rparr>) c = cell_at r' c"
  by (simp add: cell_at_def)

lemma idx_update [simp]: "idx (r\<lparr>cells := x\<rparr>) = idx r"
  by simp

lemma columns_assign_present: "c \<in> set (columns df) \<Longrightarrow> columns (assign c f df) = columns df"
  by (simp add: assign_def)

lemma rows_assign: "rows (assign c f df) = map (\<lambda>r. r\<lparr>cells := AList.update c (f r) (cells r)\<rparr>) (rows df)"
  by (simp add: assign_def)

lemma rows_fold_assign:
  "rows (fold (\<lambda>c. assign c (\<lambda>r. h (cell_at r c))) cols df) = map (fold (\<lambda>c. set_cell c h) cols) (rows df)"
  by (induction cols arbitrary: df) (simp_all add: rows_assign set_cell_def comp_def)


lemma cell_at_fold_set_cell:
  assumes "\<And>x. h (h x) = h x"
  shows "cell_at (fold (\<lambda>c. set_cell c h) cols r) c' =
           (if c' \<in> set cols then h (cell_at r c') else cell_at r c')"
  by (induction cols arbitrary: r) (auto simp: set_cell_def cell_at_update assms)

lemma idx_fold_set_cell [simp]: "idx (fold (\<lambda>c. set_cell c h) cols r) = idx r"
  by (induction cols arbitrary: r) (simp_all add: set_cell_def)

lemma to_numeric_idem: "to_numeric parse (to_numeric parse x) = to_numeric parse x"
  by (cases x) (auto split: option.splits)

lemma cast_cell_idem: "cast_cell (cast_cell x) = cast_cell x"
  by (cases x) (auto simp: cast_cell_def)

lemma cast_to_numeric: "cast_cell (to_numeric parse x) = Num (coerced parse x)"
  by (cases x) (auto simp: cast_cell_def coerced_def split: option.splits)

lemma to_numeric_castable: "\<exists>y. fillna_astype_int (to_numeric parse x) = Some y"
  by (cases x) (auto split: option.splits)

lemma to_numeric_loop_Inr:
  "\<forall>c\<in>set cols. count_list (columns df) c = 1 \<Longrightarrow>
     to_numeric_loop parse cols df =
       Inr (fold (\<lambda>c. assign c (\<lambda>r. to_numeric parse (cell_at r c))) cols df)"
proof (induction cols arbitrary: df)
  case Nil
  then show ?case by simp
next
  case (Cons c cols)
  have c: "count_list (columns df) c = 1" using Cons.prems by simp
  then have "c \<in> set (columns df)"
    by (metis count_list_0_iff zero_neq_one)
  then have cols: "columns (assign c (\<lambda>r. to_numeric parse (cell_at r c)) df) = columns df"
    by (rule columns_assign_present)
  show ?case
    using c Cons.prems Cons.IH [of "assign c (\<lambda>r. to_numeric parse (cell_at r c)) df"]
    by (simp add: to_numeric_col_def cols)
qed

lemma to_numeric_loop_columns:
  "to_numeric_loop parse cols df = Inr df' \<Longrightarrow>
     (\<forall>c\<in>set cols. count_list (columns df) c = 1)"
proof (induction cols arbitrary: df)
  case Nil
  then show ?case by simp
next
  case (Cons c cols)
  from Cons.prems obtain df1 where
    1: "to_numeric_col parse c df = Inr df1" and 2: "to_numeric_loop parse cols df1 = Inr df'"
    by (auto split: sum.splits)
  from 1 have c: "count_list (columns df) c = 1"
    by (auto simp: to_numeric_col_def split: nat.splits)
  then have "c \<in> set (columns df)"
    by (metis count_list_0_iff zero_neq_one)
  with 1 c have "columns df1 = columns df"
    by (auto simp: to_numeric_col_def columns_assign_present)
  with Cons.IH [OF 2] c show ?case by simp
qed

lemma to_numeric_loop_Inl:
  "to_numeric_loop parse cols df = Inl e \<Longrightarrow>
     e = TypeError \<or> (\<exists>c\<in>set cols. e = KeyError c \<and> c \<notin> set (columns df))"
proof (induction cols arbitrary: df)
  case Nil
  then show ?case by simp
next
  case (Cons c cols)
  show ?case
  proof (cases "to_numeric_col parse c df")
    case (Inl e')
    with Cons.prems have "e' = e" by simp
    with Inl show ?thesis
      by (auto simp: to_numeric_col_def count_list_0_iff split: nat.splits)
  next
    case (Inr df1)
    then have c: "count_list (columns df) c = 1"
      by (auto simp: to_numeric_col_def split: nat.splits)
    then have "c \<in> set (columns df)"
      by (metis count_list_0_iff zero_neq_one)
    with Inr c have "columns df1 = columns df"
      by (auto simp: to_numeric_col_def columns_assign_present)
    with Cons.IH [of df1] Cons.prems Inr show ?thesis by auto
  qed
qed


lemma not_age_Total: "\<not> sublist '' - '' Total" "\<not> sublist '' - '' Total_Licences"
  "\<not> sublist '' - '' Female_Licences" "\<not> sublist '' - '' Male_Licences"
  by (simp_all add: sublist_code(3))

lemma filter_age_rename:
  "filter (\<lambda>col. sublist '' - '' col) (map (rename_label Total Total_Licences) cs) =
   filter (\<lambda>col. sublist '' - '' col) cs"
  by (induction cs) (auto simp: rename_label_def not_age_Total)

lemma age_columns_rename:
  "age_columns (rename Total Total_Licences df) = age_columns df"
  unfolding age_columns_def rename_def by (simp only: dataframe.simps filter_age_rename)

lemma map_of_rename:
  "c \<noteq> old \<Longrightarrow> c \<noteq> new \<Longrightarrow>
     map_of (map (\<lambda>(k, v). (rename_label old new k, v)) al) c = map_of al c"
  by (induction al) (auto simp: rename_label_def)

lemma cell_at_rename:
  "c \<noteq> old \<Longrightarrow> c \<noteq> new \<Longrightarrow>
     cell_at (r\<lparr>cells := map (\<lambda>(k, v). (rename_label old new k, v)) (cells r)\<rparr>) c = cell_at r c"
  by (simp add: cell_at_def map_of_rename)

lemma age_column_not_total:
  "c \<in> set (age_columns df) \<Longrightarrow>
     c \<noteq> Total \<and> c \<noteq> Total_Licences \<and> c \<noteq> Female_Licences \<and> c \<noteq> Male_Licences"
  using not_age_Total by (auto simp: age_columns_def)


lemma castable_after_to_numeric:
  "castable cols (fold (\<lambda>c. assign c (\<lambda>r. to_numeric parse (cell_at r c))) cols df)"
  by (auto simp: castable_def list_all_iff rows_fold_assign
        cell_at_fold_set_cell [of "to_numeric parse", OF to_numeric_idem] to_numeric_castable)

lemma prep_success:
  assumes ne: "\<not> df_empty df_raw"
    and cnt: "\<forall>c\<in>set (age_columns df_raw @ [Total_Licences]).
           count_list (columns (rename Total Total_Licences df_raw)) c = 1"
  shows "clean_and_prep_data parse df_raw =
           Inr (Triple (prepared parse df_raw)
                  (filter (prefix ''F - '') (age_columns df_raw))
                  (filter (prefix ''H - '') (age_columns df_raw)))"
proof -
  define cols where "cols = age_columns df_raw @ [Total_Licences]"
  define df where "df = rename Total Total_Licences df_raw"
  define df1 where "df1 = fold (\<lambda>c. assign c (\<lambda>r. to_numeric parse (cell_at r c))) cols df"
  have loop: "to_numeric_loop parse cols df = Inr df1"
    unfolding df1_def using cnt by (intro to_numeric_loop_Inr) (simp add: cols_def df_def)
  have cast: "castable cols df1"
    unfolding df1_def by (rule castable_after_to_numeric)
  have "clean_and_prep_data parse df_raw =
          (case to_numeric_loop parse cols df of
             Inl e \<Rightarrow> Inl e
           | Inr df1 \<Rightarrow>
               (case fillna_astype_int_cols cols df1 of
                  Inl e \<Rightarrow> Inl e
                | Inr df2 \<Rightarrow>
                    Inr (Triple
                      (assign Male_Licences (row_sum (filter (prefix ''H - '') (age_columns df_raw)))
                        (assign Female_Licences (row_sum (filter (prefix ''F - '') (age_columns df_raw))) df2))
                      (filter (prefix ''F - '') (age_columns df_raw))
                      (filter (prefix ''H - '') (age_columns df_raw)))))"
    using ne unfolding cols_def df_def
    by (simp add: clean_and_prep_data_def Let_def age_columns_rename
          del: fold_append cong: sum.case_cong)
  also have "\<dots> = Inr (Triple (prepared parse df_raw)
                  (filter (prefix ''F - '') (age_columns df_raw))
                  (filter (prefix ''H - '') (age_columns df_raw)))"
    by (simp add: loop fillna_astype_int_cols_def cast)
       (simp add: prepared_def Let_def df1_def cols_def df_def age_columns_rename del: fold_append)
  finally show ?thesis .
qed

lemma prep_Triple:
  assumes "clean_and_prep_data parse df_raw = Inr (Triple df f h)"
  shows "\<not> df_empty df_raw"
    and "\<forall>c\<in>set (age_columns df_raw @ [Total_Licences]).
           count_list (columns (rename Total Total_Licences df_raw)) c = 1"
    and "df = prepared parse df_raw"
    and "f = filter (prefix ''F - '') (age_columns df_raw)"
    and "h = filter (prefix ''H - '') (age_columns df_raw)"
proof -
  show ne: "\<not> df_empty df_raw"
    using assms by (auto simp: clean_and_prep_data_def split: if_splits)
  from assms ne obtain df1 where
    "to_numeric_loop parse (age_columns df_raw @ [Total_Licences])
        (rename Total Total_Licences df_raw) = Inr df1"
    by (auto simp: clean_and_prep_data_def Let_def age_columns_rename split: sum.splits)
  from to_numeric_loop_columns [OF this]
  show cnt: "\<forall>c\<in>set (age_columns df_raw @ [Total_Licences]).
           count_list (columns (rename Total Total_Licences df_raw)) c = 1" .
  from prep_success [OF ne cnt, of parse] assms
  show "df = prepared parse df_raw"
    and "f = filter (prefix ''F - '') (age_columns df_raw)"
    and "h = filter (prefix ''H - '') (age_columns df_raw)"
    by simp_all
qed

lemma rows_rename:
  "rows (rename old new df) =
     map (\<lambda>r. r\<lparr>cells := map (\<lambda>(k, v). (rename_label old new k, v)) (cells r)\<rparr>) (rows df)"
  by (simp add: rename_def)

lemma rows_prepared:
  "rows (prepared parse df_raw) = map (prepared_row parse df_raw) (rows df_raw)"
  by (simp add: prepared_def prepared_row_def Let_def rows_assign rows_fold_assign
        age_columns_rename comp_def rows_rename del: fold_append)


lemma prepared_row_age_cell:
  assumes c: "c \<in> set (age_columns df_raw)"
  shows "cell_at (prepared_row parse df_raw r) c = Num (coerced parse (cell_at r c))"
  using c age_column_not_total [OF c]
  by (simp add: prepared_row_def Let_def cell_at_update_gen cell_at_cells_eq
        cell_at_fold_set_cell [of cast_cell, OF cast_cell_idem]
        cell_at_fold_set_cell [of "to_numeric parse", OF to_numeric_idem]
        cast_to_numeric cell_at_rename del: fold_append)


lemma count_list_distinct:
  "distinct xs \<Longrightarrow> count_list xs x = (if x \<in> set xs then 1 else 0)"
  by (induction xs) auto

lemma count_list_rename:
  "old \<noteq> new \<Longrightarrow>
     count_list (map (rename_label old new) cs) c =
       (if c = new then count_list cs old + count_list cs new
        else if c = old then 0 else count_list cs c)"
  by (induction cs) (auto simp: rename_label_def)

lemma columns_rename: "columns (rename old new df) = map (rename_label old new) (columns df)"
  by (simp add: rename_def)







subsection \<open>When the preparation succeeds\<close>




text \<open>
  The caller of the preparation, however, cannot take the empty result: on an empty input
  the unpacking at line 25 of app.py raises before the check at line 30 is reached.
\<close>

lemma prep_call_empty: "df_empty raw_df \<Longrightarrow> prep_call parse raw_df = Inl ValueError"
  by (simp add: prep_call_def clean_and_prep_data_def)

subsection \<open>The age columns after cleaning\<close>




section \<open>Filtering: the store\<close>

lemma set_column_state:
  "set_column c f s = s\<lparr>heap := (heap s)[df_filtered_addr s := assign c f (heap s ! df_filtered_addr s)]\<rparr>"
  by (simp add: set_column_def)

lemma zero_columns_state:
  "df_filtered_addr s < length (heap s) \<Longrightarrow>
     zero_columns cols s =
       s\<lparr>heap := (heap s)[df_filtered_addr s := zero_cols cols (heap s ! df_filtered_addr s)]\<rparr>"
proof (induction cols arbitrary: s)
  case Nil
  then show ?case by (simp add: zero_cols_def)
next
  case (Cons c cols)
  let ?a = "df_filtered_addr s"
  show ?case
  proof (cases "c \<in> set (columns (heap s ! ?a))")
    case True
    let ?s1 = "set_column c (\<lambda>r. Num 0) s"
    have a1: "df_filtered_addr ?s1 < length (heap ?s1)"
      using Cons.prems by (simp add: set_column_def)
    show ?thesis
      using True Cons.prems Cons.IH [OF a1]
      by (simp add: set_column_def zero_cols_def)
  next
    case False
    then show ?thesis
      using Cons.prems Cons.IH [of s] by (simp add: zero_cols_def)
  qed
qed

lemma gender_block_state:
  assumes "df_filtered_addr s < length (heap s)"
    and "gender_block g s = Inr s'"
  shows "s' = s\<lparr>heap := (heap s)[df_filtered_addr s :=
                  gender_frame g (session_f_cols s) (session_h_cols s)
                    (heap s ! df_filtered_addr s)]\<rparr>"
proof (cases g)
  case All
  with assms show ?thesis by (simp add: gender_block_def gender_frame_def)
next
  case Male
  let ?s2 = "set_column Female_Licences (\<lambda>r. Num 0)
               (set_column Total_Licences (\<lambda>r. cell_at r Male_Licences) s)"
  have a: "df_filtered_addr ?s2 < length (heap ?s2)"
    using assms(1) by (simp add: set_column_def)
  from assms(2) Male have "s' = zero_columns (session_f_cols s) ?s2"
    by (auto simp: gender_block_def split: if_splits)
  then show ?thesis
    using assms(1) Male zero_columns_state [OF a, of "session_f_cols s"]
    by (simp add: set_column_def gender_frame_def)
next
  case Female
  let ?s2 = "set_column Male_Licences (\<lambda>r. Num 0)
               (set_column Total_Licences (\<lambda>r. cell_at r Female_Licences) s)"
  have a: "df_filtered_addr ?s2 < length (heap ?s2)"
    using assms(1) by (simp add: set_column_def)
  from assms(2) Female have "s' = zero_columns (session_h_cols s) ?s2"
    by (auto simp: gender_block_def split: if_splits)
  then show ?thesis
    using assms(1) Female zero_columns_state [OF a, of "session_h_cols s"]
    by (simp add: set_column_def gender_frame_def)
qed

lemma gender_block_Inr_iff:
  "(\<exists>s'. gender_block g s = Inr s') \<longleftrightarrow>
     (case g of
        Male \<Rightarrow> Male_Licences \<in> set (columns (heap s ! df_filtered_addr s))
      | Female \<Rightarrow> Female_Licences \<in> set (columns (heap s ! df_filtered_addr s))
      | All \<Rightarrow> True)"
  by (cases g) (auto simp: gender_block_def)

lemma optional_filter_step:
  assumes "(if vals \<noteq> [] then filter_isin col vals s1 else Inr s1) = Inr s2"
    and "df_filtered_addr s1 < length (heap s1)"
  shows "heap s2 ! df_filtered_addr s2 =
           boolean_index (\<lambda>r. vals = [] \<or> cell_at r col \<in> set vals)
             (heap s1 ! df_filtered_addr s1)"
    and "df_main_addr s2 = df_main_addr s1"
    and "df_filtered_addr s1 \<le> df_filtered_addr s2"
    and "df_filtered_addr s2 < length (heap s2)"
    and "take (length (heap s1)) (heap s2) = heap s1"
    and "session_f_cols s2 = session_f_cols s1" and "session_h_cols s2 = session_h_cols s1"
    and "vals = [] \<or> col \<in> set (columns (heap s1 ! df_filtered_addr s1))"
  using assms
  by (auto simp: filter_isin_def Let_def boolean_index_def split: if_splits)

lemma take_eq_length: "take (length h1) h2 = h1 \<Longrightarrow> length h1 \<le> length h2"
proof -
  assume "take (length h1) h2 = h1"
  then have "length (take (length h1) h2) = length h1" by simp
  then show ?thesis by simp
qed

lemma take_chain:
  "take m h2 = h1 \<Longrightarrow> take n h1 = h0 \<Longrightarrow> n \<le> m \<Longrightarrow> take n h2 = h0"
  by (metis min.absorb1 take_take)

text \<open>The frame reached by the two row selections.\<close>

lemma boolean_index_twice:
  "boolean_index p (boolean_index q df) = boolean_index (\<lambda>r. q r \<and> p r) df"
  by (simp add: boolean_index_def conj_commute)

lemma filtering_logic_result:
  assumes run: "filtering_logic sel s = Inr s'"
    and m: "df_main_addr s < length (heap s)"
  shows "heap s' ! df_filtered_addr s' =
           gender_frame (selected_gender sel) (session_f_cols s) (session_h_cols s)
             (boolean_index (passes sel) (heap s ! df_main_addr s))"
    and "df_main_addr s' = df_main_addr s"
    and "length (heap s) \<le> df_filtered_addr s'"
    and "df_filtered_addr s' < length (heap s')"
    and "take (length (heap s)) (heap s') = heap s"
    and "session_f_cols s' = session_f_cols s \<and> session_h_cols s' = session_h_cols s"
    and "filter_columns_present sel (heap s ! df_main_addr s)"
proof -
  let ?df = "heap s ! df_main_addr s"
  let ?s1 = "copy_main s"
  obtain s2 s3 where
    s2: "(if selected_feds sel \<noteq> [] then filter_isin Federation (selected_feds sel) ?s1
          else Inr ?s1) = Inr s2" and
    s3: "(if selected_regions sel \<noteq> [] then filter_isin Region (selected_regions sel) s2
          else Inr s2) = Inr s3" and
    g: "gender_block (selected_gender sel) s3 = Inr s'"
    using run by (auto simp: filtering_logic_def Let_def split: sum.splits)
  have p1: "heap ?s1 ! df_filtered_addr ?s1 = ?df" "df_main_addr ?s1 = df_main_addr s"
      "length (heap s) \<le> df_filtered_addr ?s1" "df_filtered_addr ?s1 < length (heap ?s1)"
      "take (length (heap s)) (heap ?s1) = heap s"
      "session_f_cols ?s1 = session_f_cols s" "session_h_cols ?s1 = session_h_cols s"
    by (simp_all add: copy_main_def)
  note p2 = optional_filter_step [OF s2 p1(4)]
  note p3 = optional_filter_step [OF s3 p2(4)]
  have cols2: "columns (heap s2 ! df_filtered_addr s2) = columns ?df"
    by (simp add: p2(1) p1(1) boolean_index_def)
  have f3: "heap s3 ! df_filtered_addr s3 = boolean_index (passes sel) ?df"
    by (simp add: p3(1) p2(1) p1(1) boolean_index_twice passes_def [abs_def])
  have a3: "length (heap s) \<le> df_filtered_addr s3"
    using p1(3) p2(3) p3(3) by simp
  have l1: "length (heap s) \<le> length (heap ?s1)" by (simp add: copy_main_def)
  have l2: "length (heap ?s1) \<le> length (heap s2)"
    by (rule take_eq_length [OF p2(5)])
  have t2: "take (length (heap s)) (heap s2) = heap s"
    by (rule take_chain [OF p2(5) p1(5) l1])
  have t3: "take (length (heap s)) (heap s3) = heap s"
    using take_chain [OF p3(5) t2] l1 l2 by simp
  note st = gender_block_state [OF p3(4) g]
  show "heap s' ! df_filtered_addr s' =
           gender_frame (selected_gender sel) (session_f_cols s) (session_h_cols s)
             (boolean_index (passes sel) ?df)"
    using p3(4) by (simp add: st f3 p3(6,7) p2(6,7) p1(6,7))
  show "df_main_addr s' = df_main_addr s" by (simp add: st p3(2) p2(2) p1(2))
  show "length (heap s) \<le> df_filtered_addr s'" using a3 by (simp add: st)
  show "df_filtered_addr s' < length (heap s')" using p3(4) by (simp add: st)
  show "take (length (heap s)) (heap s') = heap s" using t3 a3 by (simp add: st)
  show "session_f_cols s' = session_f_cols s \<and> session_h_cols s' = session_h_cols s"
    by (simp add: st p3(6,7) p2(6,7) p1(6,7))
  have "case selected_gender sel of
          Male \<Rightarrow> Male_Licences \<in> set (columns (heap s3 ! df_filtered_addr s3))
        | Female \<Rightarrow> Female_Licences \<in> set (columns (heap s3 ! df_filtered_addr s3))
        | All \<Rightarrow> True"
    using g gender_block_Inr_iff [of "selected_gender sel" s3] by blast
  moreover have "columns (heap s3 ! df_filtered_addr s3) = columns ?df"
    by (simp add: f3 boolean_index_def)
  ultimately show "filter_columns_present sel ?df"
    using p2(8) p3(8) cols2
    by (auto simp: filter_columns_present_def p1(1) split: gender.splits)
qed

section \<open>Filtering: the filtered frame\<close>

lemma optional_filter_total:
  "vals = [] \<or> col \<in> set (columns (heap s1 ! df_filtered_addr s1)) \<Longrightarrow>
     \<exists>s2. (if vals \<noteq> [] then filter_isin col vals s1 else Inr s1) = Inr s2"
  by (auto simp: filter_isin_def Let_def)

lemma filtering_logic_total:
  assumes "df_main_addr s < length (heap s)"
    and "filter_columns_present sel (heap s ! df_main_addr s)"
  shows "\<exists>s'. filtering_logic sel s = Inr s'"
proof -
  let ?df = "heap s ! df_main_addr s"
  let ?s1 = "copy_main s"
  have a1: "df_filtered_addr ?s1 < length (heap ?s1)" "heap ?s1 ! df_filtered_addr ?s1 = ?df"
    by (simp_all add: copy_main_def)
  obtain s2 where s2:
    "(if selected_feds sel \<noteq> [] then filter_isin Federation (selected_feds sel) ?s1
      else Inr ?s1) = Inr s2"
    using optional_filter_total [of "selected_feds sel" Federation ?s1] assms(2) a1(2)
    by (auto simp: filter_columns_present_def)
  note p2 = optional_filter_step [OF s2 a1(1)]
  have c2: "columns (heap s2 ! df_filtered_addr s2) = columns ?df"
    by (simp add: p2(1) a1(2) boolean_index_def)
  obtain s3 where s3:
    "(if selected_regions sel \<noteq> [] then filter_isin Region (selected_regions sel) s2
      else Inr s2) = Inr s3"
    using optional_filter_total [of "selected_regions sel" Region s2] assms(2) c2
    by (auto simp: filter_columns_present_def)
  note p3 = optional_filter_step [OF s3 p2(4)]
  have c3: "columns (heap s3 ! df_filtered_addr s3) = columns ?df"
    by (simp add: p3(1) c2 boolean_index_def)
  have "\<exists>s'. gender_block (selected_gender sel) s3 = Inr s'"
    using assms(2) c3
    by (auto simp: gender_block_Inr_iff filter_columns_present_def split: gender.splits)
  then show ?thesis
    using s2 s3 by (auto simp: filtering_logic_def Let_def)
qed

lemma filter_engine_iff:
  "filter_engine f_cols h_cols sel df = Inr df' \<longleftrightarrow>
     filter_columns_present sel df \<and>
     df' = gender_frame (selected_gender sel) f_cols h_cols (boolean_index (passes sel) df)"
proof -
  let ?s = "initial_state f_cols h_cols df"
  have m: "df_main_addr ?s < length (heap ?s)" "heap ?s ! df_main_addr ?s = df"
    "session_f_cols ?s = f_cols" "session_h_cols ?s = h_cols"
    by (simp_all add: initial_state_def)
  show ?thesis
  proof
    assume "filter_engine f_cols h_cols sel df = Inr df'"
    then obtain s' where run: "filtering_logic sel ?s = Inr s'"
      and df': "df' = heap s' ! df_filtered_addr s'"
      by (auto simp: filter_engine_def split: sum.splits)
    from filtering_logic_result(1) [OF run m(1)] filtering_logic_result(7) [OF run m(1)]
    show "filter_columns_present sel df \<and>
          df' = gender_frame (selected_gender sel) f_cols h_cols (boolean_index (passes sel) df)"
      by (simp add: df' m)
  next
    assume a: "filter_columns_present sel df \<and>
          df' = gender_frame (selected_gender sel) f_cols h_cols (boolean_index (passes sel) df)"
    then obtain s' where run: "filtering_logic sel ?s = Inr s'"
      using filtering_logic_total [OF m(1), of sel] by (auto simp: m)
    from filtering_logic_result(1) [OF run m(1)] a
    show "filter_engine f_cols h_cols sel df = Inr df'"
      by (simp add: filter_engine_def run m)
  qed
qed

subsection \<open>Rows and columns of the filtered frame\<close>

lemma columns_assign: "set (columns (assign c f df)) = insert c (set (columns df))"
  by (auto simp: assign_def)

lemma zero_cols_frame:
  "columns (zero_cols cols df) = columns df \<and>
   rows (zero_cols cols df) =
     map (fold (\<lambda>c. set_cell c (\<lambda>x. Num 0)) (filter (\<lambda>c. c \<in> set (columns df)) cols)) (rows df)"
proof (induction cols arbitrary: df)
  case Nil
  then show ?case by (simp add: zero_cols_def)
next
  case (Cons c cols)
  show ?case
  proof (cases "c \<in> set (columns df)")
    case True
    have step: "zero_cols (c # cols) df = zero_cols cols (assign c (\<lambda>r. Num 0) df)"
      using True by (simp add: zero_cols_def)
    have cols: "columns (assign c (\<lambda>r. Num 0) df) = columns df"
      using True by (simp add: assign_def)
    show ?thesis
      using True Cons.IH [of "assign c (\<lambda>r. Num 0) df"]
      by (simp add: step cols rows_assign set_cell_def comp_def)
  next
    case False
    have step: "zero_cols (c # cols) df = zero_cols cols df"
      using False by (simp add: zero_cols_def)
    show ?thesis using False Cons.IH [of df] by (simp add: step)
  qed
qed

lemma gender_frame_rows:
  "rows (gender_frame g f_cols h_cols df) = map (gender_fn g f_cols h_cols (columns df)) (rows df)"
proof (cases g)
  case All
  then show ?thesis by (simp add: gender_frame_def gender_fn_def [abs_def])
next
  case Male
  then show ?thesis
    by (simp add: gender_frame_def gender_fn_def [abs_def] gender_row_def [abs_def] zero_cols_frame
          rows_assign columns_assign set_cell_def comp_def insert_commute)
next
  case Female
  then show ?thesis
    by (simp add: gender_frame_def gender_fn_def [abs_def] gender_row_def [abs_def] zero_cols_frame
          rows_assign columns_assign set_cell_def comp_def insert_commute)
qed

lemma gender_frame_columns:
  "set (columns (gender_frame g f_cols h_cols df)) =
     set (columns df) \<union>
     (case g of Male \<Rightarrow> {Total_Licences, Female_Licences}
      | Female \<Rightarrow> {Total_Licences, Male_Licences} | All \<Rightarrow> {})"
  by (cases g) (auto simp: gender_frame_def zero_cols_frame columns_assign)

subsection \<open>The filtering block on the example frames\<close>

lemmas filter_eval =
  filter_engine_def filtering_logic_def initial_state_def copy_main_def filter_isin_def
  gender_block_def set_column_def assign_def boolean_index_def cell_at_def Let_def



lemma female_all_eval:
  "filter_engine [''F - 1 ans''] [''H - 1 ans''] female_all cleaned_example = Inr female_all_filtered"
  by (simp add: filter_eval female_all_def cleaned_example_def female_all_filtered_def)

lemma female_all_run:
  "filtering_logic female_all (initial_state [''F - 1 ans''] [''H - 1 ans''] cleaned_example) =
     Inr female_all_final"
  by (simp add: filter_eval female_all_def cleaned_example_def female_all_filtered_def
        female_all_final_def)

lemma example_bracket_lists: "bracket_lists [''F - 1 ans''] [''H - 1 ans'']"
  by (simp add: bracket_lists_def)

subsection \<open>One row under the gender block\<close>

lemma map_of_fold_const:
  "map_of (cells (fold (\<lambda>c. set_cell c (\<lambda>x. v)) cols r)) c' =
     (if c' \<in> set cols then Some v else map_of (cells r) c')"
  by (induction cols arbitrary: r) (auto simp: set_cell_def update_conv')

lemma map_of_gender_row:
  "map_of (cells (gender_row agg other zeroed r)) c =
     (if c \<in> set zeroed \<or> c = other then Some (Num 0)
      else if c = Total_Licences then Some (cell_at r agg)
      else map_of (cells r) c)"
  by (simp add: gender_row_def map_of_fold_const set_cell_def update_conv')

lemma cell_at_gender_row:
  "cell_at (gender_row agg other zeroed r) c =
     (if c \<in> set zeroed \<or> c = other then Num 0
      else if c = Total_Licences then cell_at r agg
      else cell_at r c)"
  by (simp add: cell_at_def map_of_gender_row)


lemma set_cell_same:
  "map_of (cells r) c = Some (h (cell_at r c)) \<Longrightarrow> set_cell c h r = r"
  by (simp add: set_cell_def update_triv)

lemma fold_set_cell_same:
  "\<forall>c\<in>set cols. map_of (cells r) c = Some v \<Longrightarrow>
     fold (\<lambda>c. set_cell c (\<lambda>x. v)) cols r = r"
  by (induction cols) (simp_all add: set_cell_same)

lemma gender_row_idem:
  assumes "agg \<notin> set zeroed" "agg \<noteq> other" "agg \<noteq> Total_Licences"
    and "Total_Licences \<notin> set zeroed" "Total_Licences \<noteq> other"
  shows "gender_row agg other zeroed (gender_row agg other zeroed r) =
         gender_row agg other zeroed r"
proof -
  let ?r' = "gender_row agg other zeroed r"
  have agg: "cell_at ?r' agg = cell_at r agg"
    using assms by (simp add: cell_at_gender_row)
  have 1: "?r'\<lparr>cells := AList.update Total_Licences (cell_at ?r' agg) (cells ?r')\<rparr> = ?r'"
    using assms by (simp add: agg update_triv map_of_gender_row)
  have 2: "set_cell other (\<lambda>x. Num 0) ?r' = ?r'"
    by (rule set_cell_same) (simp add: map_of_gender_row)
  have 3: "fold (\<lambda>c. set_cell c (\<lambda>x. Num 0)) zeroed ?r' = ?r'"
    by (rule fold_set_cell_same) (simp add: map_of_gender_row)
  have "gender_row agg other zeroed ?r' =
          fold (\<lambda>c. set_cell c (\<lambda>x. Num 0)) zeroed
            (set_cell other (\<lambda>x. Num 0)
               (?r'\<lparr>cells := AList.update Total_Licences (cell_at ?r' agg) (cells ?r')\<rparr>))"
    by (simp only: gender_row_def [of agg other zeroed ?r'])
  also have "\<dots> = ?r'" by (simp only: 1 2 3)
  finally show ?thesis .
qed

lemma bracket_label_not_special:
  assumes "prefix ''F - '' c \<or> prefix ''H - '' c"
  shows "c \<noteq> Total_Licences" "c \<noteq> Female_Licences" "c \<noteq> Male_Licences"
    "c \<noteq> Federation" "c \<noteq> Region"
  using assms by (auto simp: prefix_def)

lemma bracket_lists_not_special:
  assumes "bracket_lists f_cols h_cols" and "c \<in> set f_cols \<union> set h_cols"
  shows "c \<noteq> Total_Licences" "c \<noteq> Female_Licences" "c \<noteq> Male_Licences"
    "c \<noteq> Federation" "c \<noteq> Region"
proof -
  from assms have "prefix ''F - '' c \<or> prefix ''H - '' c"
    by (auto simp: bracket_lists_def list_all_iff)
  from bracket_label_not_special [OF this]
  show "c \<noteq> Total_Licences" "c \<noteq> Female_Licences" "c \<noteq> Male_Licences"
    "c \<noteq> Federation" "c \<noteq> Region"
    by blast+
qed

lemma cell_at_gender_fn:
  "cell_at (gender_fn g f_cols h_cols cols r) c =
     (case g of
        Male \<Rightarrow>
          if (c \<in> set f_cols \<and> c \<in> set cols \<union> {Total_Licences, Female_Licences})
             \<or> c = Female_Licences then Num 0
          else if c = Total_Licences then cell_at r Male_Licences else cell_at r c
      | Female \<Rightarrow>
          if (c \<in> set h_cols \<and> c \<in> set cols \<union> {Total_Licences, Male_Licences})
             \<or> c = Male_Licences then Num 0
          else if c = Total_Licences then cell_at r Female_Licences else cell_at r c
      | All \<Rightarrow> cell_at r c)"
  by (cases g) (auto simp: gender_fn_def cell_at_gender_row)


lemma gender_fn_untouched:
  "c \<notin> overwritten g f_cols h_cols \<Longrightarrow> cell_at (gender_fn g f_cols h_cols cols r) c = cell_at r c"
  by (cases g) (auto simp: cell_at_gender_fn overwritten_def)

lemma passes_gender_fn:
  assumes "bracket_lists f_cols h_cols"
  shows "passes sel (gender_fn g f_cols h_cols cols r) = passes sel r"
proof -
  have "Federation \<notin> overwritten g f_cols h_cols" "Region \<notin> overwritten g f_cols h_cols"
    using bracket_lists_not_special(4,5) [OF assms]
    by (cases g; auto simp: overwritten_def)+
  then show ?thesis by (simp add: passes_def gender_fn_untouched)
qed

lemma filter_engine_rows:
  assumes "filter_engine f_cols h_cols sel df = Inr df'"
  shows "rows df' =
           map (gender_fn (selected_gender sel) f_cols h_cols (columns df))
               (filter (passes sel) (rows df))"
    and "set (columns df') =
           set (columns df) \<union>
           (case selected_gender sel of Male \<Rightarrow> {Total_Licences, Female_Licences}
            | Female \<Rightarrow> {Total_Licences, Male_Licences} | All \<Rightarrow> {})"
  using assms
  by (simp_all add: filter_engine_iff gender_frame_rows gender_frame_columns boolean_index_def)

subsection \<open>The gender modes\<close>




subsection \<open>No row is fabricated\<close>



subsection \<open>Idempotence\<close>

lemma gender_fn_idem:
  assumes bl: "bracket_lists f_cols h_cols"
  shows "gender_fn g f_cols h_cols cols (gender_fn g f_cols h_cols cols r) =
         gender_fn g f_cols h_cols cols r"
proof (cases g)
  case All
  then show ?thesis by (simp add: gender_fn_def)
next
  case Male
  have "Male_Licences \<notin> set f_cols" "Total_Licences \<notin> set f_cols"
    using bracket_lists_not_special [OF bl] by blast+
  then show ?thesis
    using Male by (simp add: gender_fn_def gender_row_idem)
next
  case Female
  have "Female_Licences \<notin> set h_cols" "Total_Licences \<notin> set h_cols"
    using bracket_lists_not_special [OF bl] by blast+
  then show ?thesis
    using Female by (simp add: gender_fn_def gender_row_idem)
qed

lemma gender_fn_columns_cong:
  assumes "\<And>c. c \<in> set f_cols \<union> set h_cols \<Longrightarrow> (c \<in> set cols) = (c \<in> set cols')"
  shows "gender_fn g f_cols h_cols cols = gender_fn g f_cols h_cols cols'"
proof -
  have f: "filter (\<lambda>c. c \<in> set cols \<union> {Total_Licences, Female_Licences}) f_cols =
           filter (\<lambda>c. c \<in> set cols' \<union> {Total_Licences, Female_Licences}) f_cols"
    using assms by (intro filter_cong) auto
  have h: "filter (\<lambda>c. c \<in> set cols \<union> {Total_Licences, Male_Licences}) h_cols =
           filter (\<lambda>c. c \<in> set cols' \<union> {Total_Licences, Male_Licences}) h_cols"
    using assms by (intro filter_cong) auto
  show ?thesis
    unfolding gender_fn_def [abs_def] by (simp only: f h)
qed

lemma gender_frame_columns_list:
  assumes "case g of Male \<Rightarrow> {Total_Licences, Female_Licences} \<subseteq> set (columns df)
      | Female \<Rightarrow> {Total_Licences, Male_Licences} \<subseteq> set (columns df) | All \<Rightarrow> True"
  shows "columns (gender_frame g f_cols h_cols df) = columns df"
  using assms
  by (cases g) (simp_all add: gender_frame_def zero_cols_frame columns_assign_present)

text \<open>
  Claim C6. When the Filter Engine returns a frame for some selections, with the bracket
  lists of the preparation, then applying it to that frame with the same selections
  returns that frame again.
\<close>

theorem filter_idempotent:
  assumes run: "filter_engine f_cols h_cols sel df = Inr df'"
    and bl: "bracket_lists f_cols h_cols"
  shows "filter_engine f_cols h_cols sel df' = Inr df'"
proof -
  let ?g = "selected_gender sel"
  let ?extra = "case ?g of Male \<Rightarrow> {Total_Licences, Female_Licences}
      | Female \<Rightarrow> {Total_Licences, Male_Licences} | All \<Rightarrow> {}"
  let ?G = "gender_fn ?g f_cols h_cols (columns df)"
  note rows = filter_engine_rows(1) [OF run]
  note cols = filter_engine_rows(2) [OF run]
  from run have present: "filter_columns_present sel df"
    by (simp add: filter_engine_iff)
  have present': "filter_columns_present sel df'"
    using present by (auto simp: filter_columns_present_def cols split: gender.splits)
  have G': "gender_fn ?g f_cols h_cols (columns df') = ?G"
  proof (rule gender_fn_columns_cong)
    fix c assume "c \<in> set f_cols \<union> set h_cols"
    from bracket_lists_not_special(1-3) [OF bl this]
    show "(c \<in> set (columns df')) = (c \<in> set (columns df))"
      by (auto simp: cols split: gender.splits)
  qed
  have keep: "filter (passes sel) (rows df') = rows df'"
    by (simp add: rows filter_map comp_def passes_gender_fn [OF bl])
  have r: "rows (gender_frame ?g f_cols h_cols (boolean_index (passes sel) df')) = rows df'"
    by (simp add: gender_frame_rows boolean_index_def keep G')
       (simp add: rows gender_fn_idem [OF bl])
  have cb: "columns (boolean_index (passes sel) df') = columns df'"
    by (simp add: boolean_index_def)
  have "case ?g of
          Male \<Rightarrow> {Total_Licences, Female_Licences} \<subseteq> set (columns (boolean_index (passes sel) df'))
        | Female \<Rightarrow> {Total_Licences, Male_Licences} \<subseteq> set (columns (boolean_index (passes sel) df'))
        | All \<Rightarrow> True"
    by (auto simp: cb cols split: gender.splits)
  from gender_frame_columns_list [OF this]
  have c: "columns (gender_frame ?g f_cols h_cols (boolean_index (passes sel) df')) =
             columns df'"
    by (simp add: cb)
  have "gender_frame ?g f_cols h_cols (boolean_index (passes sel) df') = df'"
    using r c by (intro dataframe.equality) simp_all
  with present' show ?thesis by (simp add: filter_engine_iff)
qed

theorem filter_idempotent_witness:
  "filter_engine [''F - 1 ans''] [''H - 1 ans''] female_all cleaned_example = Inr female_all_filtered \<and>
   bracket_lists [''F - 1 ans''] [''H - 1 ans''] \<and>
   filter_engine [''F - 1 ans''] [''H - 1 ans''] female_all female_all_filtered = Inr female_all_filtered"
  using filter_idempotent [OF female_all_eval example_bracket_lists]
    female_all_eval example_bracket_lists
  by simp

subsection \<open>The cleaned frame is not mutated\<close>

text \<open>
  Claim C10. When the filtering block has run in a store where \<open>df_main\<close> points to a
  frame, \<open>df_main\<close> still points to the same address, the frame at that address is the
  frame it was before, as is every frame the store held before, and \<open>df_filtered\<close> points
  to another, newly allocated frame.
\<close>

theorem filtering_keeps_cleaned_frame:
  assumes run: "filtering_logic sel s = Inr s'"
    and m: "df_main_addr s < length (heap s)"
  shows "df_main_addr s' = df_main_addr s \<and>
         heap s' ! df_main_addr s' = heap s ! df_main_addr s \<and>
         take (length (heap s)) (heap s') = heap s \<and>
         length (heap s) \<le> df_filtered_addr s' \<and>
         df_filtered_addr s' \<noteq> df_main_addr s'"
proof -
  note r = filtering_logic_result [OF run m]
  have "heap s' ! df_main_addr s = take (length (heap s)) (heap s') ! df_main_addr s"
    using m by simp
  then have "heap s' ! df_main_addr s = heap s ! df_main_addr s"
    by (simp add: r(5))
  then show ?thesis
    using r(2) r(3) r(5) m by simp
qed

theorem filtering_keeps_cleaned_frame_witness:
  "filtering_logic female_all (initial_state [''F - 1 ans''] [''H - 1 ans''] cleaned_example) =
     Inr female_all_final \<and>
   df_main_addr (initial_state [''F - 1 ans''] [''H - 1 ans''] cleaned_example) <
     length (heap (initial_state [''F - 1 ans''] [''H - 1 ans''] cleaned_example)) \<and>
   heap female_all_final ! df_main_addr female_all_final = cleaned_example \<and>
   df_filtered_addr female_all_final \<noteq> df_main_addr female_all_final"
proof -
  have m: "df_main_addr (initial_state [''F - 1 ans''] [''H - 1 ans''] cleaned_example) <
     length (heap (initial_state [''F - 1 ans''] [''H - 1 ans''] cleaned_example))"
    by (simp add: initial_state_def)
  from filtering_keeps_cleaned_frame [OF female_all_run m] female_all_run m
  show ?thesis by (simp add: initial_state_def female_all_final_def)
qed

subsection \<open>What a cleaned frame looks like\<close>

lemma distinct_count_list: "distinct xs \<longleftrightarrow> (\<forall>x. count_list xs x \<le> 1)"
proof (induction xs)
  case Nil
  then show ?case by simp
next
  case (Cons a xs)
  show ?case
  proof
    assume d: "distinct (a # xs)"
    then have "count_list xs a = 0" by simp
    with d Cons show "\<forall>x. count_list (a # xs) x \<le> 1" by auto
  next
    assume c: "\<forall>x. count_list (a # xs) x \<le> 1"
    then have "count_list (a # xs) a \<le> 1" by blast
    then have "a \<notin> set xs" by (simp add: count_list_0_iff [symmetric])
    moreover have "\<forall>x. count_list xs x \<le> 1"
    proof
      fix x from c have "count_list (a # xs) x \<le> 1" by blast
      then show "count_list xs x \<le> 1" by (simp split: if_splits)
    qed
    ultimately show "distinct (a # xs)" using Cons by simp
  qed
qed

lemma distinct_assign: "distinct (columns df) \<Longrightarrow> distinct (columns (assign c f df))"
  by (simp add: assign_def)

lemma distinct_fold_assign:
  "distinct (columns df) \<Longrightarrow> distinct (columns (fold (\<lambda>c. assign c (f c)) cols df))"
  by (induction cols arbitrary: df) (simp_all add: distinct_assign)

lemma prep_distinct_columns:
  assumes prep: "clean_and_prep_data parse df_raw = Inr (Triple df f_cols h_cols)"
    and dist: "distinct (columns df_raw)"
  shows "distinct (columns df)"
proof -
  note t = prep_Triple [OF prep]
  have one: "count_list (columns (rename Total Total_Licences df_raw)) Total_Licences = 1"
    using t(2) by simp
  have "count_list (columns (rename Total Total_Licences df_raw)) c \<le> 1" for c
  proof (cases "c = Total_Licences")
    case True
    with one show ?thesis by simp
  next
    case False
    then show ?thesis
      using dist by (simp add: columns_rename count_list_rename count_list_distinct)
  qed
  then have "distinct (columns (rename Total Total_Licences df_raw))"
    by (simp add: distinct_count_list)
  then show ?thesis
    by (simp add: t(3) prepared_def Let_def distinct_assign distinct_fold_assign
          del: fold_append)
qed

lemma prep_bracket_lists:
  assumes "clean_and_prep_data parse df_raw = Inr (Triple df f_cols h_cols)"
  shows "bracket_lists f_cols h_cols"
  using prep_Triple(4,5) [OF assms] by (simp add: bracket_lists_def list_all_iff)

lemma prepared_row_total:
  "\<exists>n. cell_at (prepared_row parse df_raw r) Total_Licences = Num n"
  by (simp add: prepared_row_def Let_def cell_at_update_gen cell_at_cells_eq
        cell_at_fold_set_cell [of cast_cell, OF cast_cell_idem]
        cell_at_fold_set_cell [of "to_numeric parse", OF to_numeric_idem]
        cast_to_numeric del: fold_append)

lemma prepared_row_aggregates:
  "\<exists>n. cell_at (prepared_row parse df_raw r) Female_Licences = Num n"
  "\<exists>n. cell_at (prepared_row parse df_raw r) Male_Licences = Num n"
  by (simp_all add: prepared_row_def Let_def cell_at_update_gen row_sum_def del: fold_append)

lemma columns_prepared:
  "set (columns (prepared parse df_raw)) =
     set (columns (rename Total Total_Licences df_raw)) \<union>
     set (age_columns df_raw) \<union> {Total_Licences, Female_Licences, Male_Licences}"
proof -
  have "set (columns (fold (\<lambda>c. assign c (f c)) cols d)) = set (columns d) \<union> set cols"
    for f :: "string \<Rightarrow> row \<Rightarrow> cell" and cols d
    by (induction cols arbitrary: d) (auto simp: columns_assign)
  then show ?thesis
    by (auto simp: prepared_def Let_def columns_assign age_columns_rename simp del: fold_append)
qed

lemma int_columnI:
  "c \<in> set (columns df) \<Longrightarrow> (\<And>r. r \<in> set (rows df) \<Longrightarrow> \<exists>n. cell_at r c = Num n) \<Longrightarrow>
     int_column df c"
  by (fastforce simp: int_column_def list_all_iff)

lemma int_columnD:
  "int_column df c \<Longrightarrow> r \<in> set (rows df) \<Longrightarrow> \<exists>n. cell_at r c = Num n"
  by (cases "cell_at r c") (auto simp: int_column_def list_all_iff split: cell.splits)

text \<open>
  In a cleaned frame the total, the two aggregates and every age column are integer
  columns.
\<close>

lemma prep_int_columns:
  assumes prep: "clean_and_prep_data parse df_raw = Inr (Triple df f_cols h_cols)"
  shows "int_column df Total_Licences" "int_column df Female_Licences"
    "int_column df Male_Licences"
    "\<forall>c\<in>set (age_columns df_raw). int_column df c"
proof -
  note t = prep_Triple [OF prep]
  have rows: "rows df = map (prepared_row parse df_raw) (rows df_raw)"
    by (simp add: t(3) rows_prepared)
  have cols: "set (columns df) =
     set (columns (rename Total Total_Licences df_raw)) \<union>
     set (age_columns df_raw) \<union> {Total_Licences, Female_Licences, Male_Licences}"
    by (simp only: t(3) columns_prepared)
  show "int_column df Total_Licences"
    using prepared_row_total [of parse df_raw]
    by (intro int_columnI) (auto simp: cols rows)
  show "int_column df Female_Licences"
    using prepared_row_aggregates(1) [of parse df_raw]
    by (intro int_columnI) (auto simp: cols rows)
  show "int_column df Male_Licences"
    using prepared_row_aggregates(2) [of parse df_raw]
    by (intro int_columnI) (auto simp: cols rows)
  show "\<forall>c\<in>set (age_columns df_raw). int_column df c"
    by (intro ballI int_columnI) (auto simp: cols rows prepared_row_age_cell)
qed

text \<open>
  The Filter Engine keeps \<open>Total_Licences\<close> an integer column, so the builders below
  apply to every frame filtered from a cleaned frame.
\<close>

lemma filter_int_total:
  assumes run: "filter_engine f_cols h_cols sel df = Inr df'"
    and bl: "bracket_lists f_cols h_cols"
    and tot: "int_column df Total_Licences"
    and agg: "int_column df Male_Licences" "int_column df Female_Licences"
  shows "int_column df' Total_Licences"
proof (rule int_columnI)
  note rows = filter_engine_rows(1) [OF run]
  note cols = filter_engine_rows(2) [OF run]
  show "Total_Licences \<in> set (columns df')"
    using tot by (auto simp: cols int_column_def)
  fix r' assume "r' \<in> set (rows df')"
  then obtain r where r: "r \<in> set (rows df)"
    and r': "r' = gender_fn (selected_gender sel) f_cols h_cols (columns df) r"
    by (auto simp: rows)
  have nf: "Total_Licences \<notin> set f_cols" "Total_Licences \<notin> set h_cols"
    using bracket_lists_not_special(1) [OF bl] by blast+
  show "\<exists>n. cell_at r' Total_Licences = Num n"
    using int_columnD [OF tot r] int_columnD [OF agg(1) r] int_columnD [OF agg(2) r] nf
    by (cases "selected_gender sel") (auto simp: r' cell_at_gender_fn)
qed

section \<open>Aggregation by department\<close>

lemma collect_Inr_set:
  "collect f xs = Inr ys \<Longrightarrow> y \<in> set ys \<Longrightarrow> \<exists>x\<in>set xs. f x = Inr y"
  by (induction xs arbitrary: ys) (auto split: sum.splits)

lemma collect_Inr_key:
  "collect f xs = Inr ys \<Longrightarrow> (\<And>x y. f x = Inr y \<Longrightarrow> g y = x) \<Longrightarrow> map g ys = xs"
  by (induction xs arbitrary: ys) (auto split: sum.splits)

lemma collect_Inr_length: "collect f xs = Inr ys \<Longrightarrow> length ys = length xs"
  by (induction xs arbitrary: ys) (auto split: sum.splits)

lemma collect_total:
  "\<forall>x\<in>set xs. \<exists>y. f x = Inr y \<Longrightarrow> \<exists>ys. collect f xs = Inr ys"
  by (induction xs) (auto split: sum.splits)

lemma group_keys_set: "set (group_keys xs) = set xs - {NaN}"
  by (auto simp: group_keys_def)

lemma group_keys_distinct: "distinct (group_keys xs)"
  by (simp add: group_keys_def)

text \<open>
  What the aggregation by department returns: one record per department code present, in
  the order of the codes; the total is the sum of \<open>Total_Licences\<close> over the rows of the
  department; the number of associations is the number of those rows whose \<open>Code Commune\<close>
  is not missing.
\<close>

lemma choropleth_records:
  assumes "plot_choropleth_map df = Inr recs"
  shows "distinct (map dept_code recs)"
    and "set (map dept_code recs) = set (map (\<lambda>r. cell_at r Departement) (rows df)) - {NaN}"
    and "\<forall>rec\<in>set recs.
           dept_total_licences rec =
             sum_list (map (\<lambda>r. num_val (cell_at r Total_Licences)) (dept_rows df (dept_code rec)))
         \<and> dept_nb_associations rec =
             length (filter (\<lambda>r. cell_at r Code_Commune \<noteq> NaN) (dept_rows df (dept_code rec)))"
proof -
  let ?keys = "group_keys (map (\<lambda>r. cell_at r Departement) (rows df))"
  let ?f = "\<lambda>k. let grp = group_rows Departement k df in
                  case series_sum (map (\<lambda>r. cell_at r Total_Licences) grp) of
                    Inl e \<Rightarrow> Inl e
                  | Inr n \<Rightarrow>
                      Inr \<lparr>dept_code = k, dept_total_licences = n,
                           dept_nb_associations =
                             series_count (map (\<lambda>r. cell_at r Code_Commune) grp)\<rparr>"
  from assms have coll: "collect ?f ?keys = Inr recs"
    by (simp add: plot_choropleth_map_def split: if_splits)
  have step: "?f k = Inr rec \<Longrightarrow>
      dept_code rec = k \<and>
      dept_total_licences rec =
        sum_list (map (\<lambda>r. num_val (cell_at r Total_Licences)) (dept_rows df k)) \<and>
      dept_nb_associations rec =
        length (filter (\<lambda>r. cell_at r Code_Commune \<noteq> NaN) (dept_rows df k))"
    for k rec
    by (auto simp: Let_def group_rows_def dept_rows_def series_count_def filter_map comp_def
             split: sum.splits dest!: series_sum_Inr)
  have codes: "map dept_code recs = ?keys"
    using collect_Inr_key [OF coll] step by blast
  show "distinct (map dept_code recs)"
    by (simp add: codes group_keys_distinct)
  show "set (map dept_code recs) = set (map (\<lambda>r. cell_at r Departement) (rows df)) - {NaN}"
    by (simp only: codes group_keys_set)
  show "\<forall>rec\<in>set recs.
           dept_total_licences rec =
             sum_list (map (\<lambda>r. num_val (cell_at r Total_Licences)) (dept_rows df (dept_code rec)))
         \<and> dept_nb_associations rec =
             length (filter (\<lambda>r. cell_at r Code_Commune \<noteq> NaN) (dept_rows df (dept_code rec)))"
    using collect_Inr_set [OF coll] step by blast
qed

text \<open>
  Claim C3 at a frame where one row of department \<open>01\<close> has no commune code: the department
  has two rows, its total is the sum over both, and the number of associations reported
  is 1.
\<close>

theorem choropleth_count_misses_row:
  "plot_choropleth_map missing_commune_example =
     Inr [\<lparr>dept_code = Txt ''01'', dept_total_licences = 30, dept_nb_associations = 1\<rparr>] \<and>
   length (dept_rows missing_commune_example (Txt ''01'')) = 2"
  by (simp add: plot_choropleth_map_def missing_commune_example_def group_keys_def
        group_rows_def dept_rows_def cell_at_def series_count_def Let_def)

section \<open>Age pyramid\<close>







text \<open>
  The builder returns a pyramid whenever both lists are non-empty, the frame is non-empty
  and the bracket columns are integer columns of the frame, as they are after cleaning.
\<close>

lemma plot_age_pyramid_total:
  assumes f: "f_cols \<noteq> []" and h: "h_cols \<noteq> []" and ne: "\<not> df_empty df"
    and ints: "\<forall>c\<in>set (f_cols @ h_cols). int_column df c"
  shows "\<exists>es. plot_age_pyramid f_cols h_cols df = Inr (Pyramid es)"
proof -
  let ?step = "\<lambda>c. case series_sum (map (\<lambda>r. cell_at r c) (rows df)) of
                       Inl e \<Rightarrow> Inl e
                     | Inr n \<Rightarrow> Inr (c, n)"
  have present: "filter (\<lambda>c. c \<notin> set (columns df)) (f_cols @ h_cols) = []"
    using ints by (auto simp: filter_empty_conv int_column_def)
  have "\<forall>c\<in>set (f_cols @ h_cols). \<exists>y. ?step c = Inr y"
    using ints by (auto simp: int_column_sum)
  then obtain agg where coll: "collect ?step (f_cols @ h_cols) = Inr agg"
    using collect_total [of "f_cols @ h_cols" ?step] by blast
  have agg: "column_sums (f_cols @ h_cols) df = Inr agg"
    using present coll by (simp add: column_sums_def del: filter_append)
  have "?step c = Inr p \<Longrightarrow> fst p = c" for c p
    by (auto split: sum.splits)
  from collect_Inr_key [OF coll, of fst] this have labels: "map fst agg = f_cols @ h_cols"
    by blast
  obtain c cs where fc: "f_cols = c # cs" using f by (cases f_cols) auto
  have "c \<in> set (map fst agg)" by (simp add: labels fc)
  then obtain n where "(c, n) \<in> set agg" by auto
  then have "filter (\<lambda>(k, n). k = c) agg \<noteq> []"
    by (auto simp: filter_empty_conv)
  then have "select_labels f_cols agg \<noteq> []"
    by (simp add: select_labels_def fc)
  then show ?thesis
    using f h ne agg by (simp add: plot_age_pyramid_def Let_def)
qed

section \<open>KPI metrics\<close>




section \<open>Top federations\<close>

subsection \<open>The largest values of a series\<close>






subsection \<open>The two series\<close>




subsection \<open>The ranking\<close>


lemma top_implantation_example:
  "plot_top_federations top_example ''implantation'' =
     Inr [(Txt ''Tennis'', 1), (Txt ''Judo'', 1), (Txt ''Football'', 2)]"
  by code_simp



lemma top_federations_total:
  assumes "Federation \<in> set (columns df)"
    and "by = ''licences'' \<longrightarrow> int_column df Total_Licences"
  shows "\<exists>res. plot_top_federations df by = Inr res"
proof (cases "by = ''licences''")
  case False
  with assms(1) show ?thesis
    by (simp add: plot_top_federations_def getitem_def)
next
  case True
  with assms(2) have ic: "int_column df Total_Licences" by simp
  have "\<exists>y. (case series_sum (map (\<lambda>r. cell_at r Total_Licences) (group_rows Federation k df)) of
               Inl e \<Rightarrow> Inl e | Inr n \<Rightarrow> Inr (k, n)) = Inr y" for k
  proof -
    have "\<forall>x\<in>set (map (\<lambda>r. cell_at r Total_Licences) (group_rows Federation k df)). \<forall>t. x \<noteq> Txt t"
      using int_column_no_text [OF ic] by (auto simp: group_rows_def)
    from series_sum_no_text [OF this] show ?thesis by simp
  qed
  then have "\<exists>gs. collect (\<lambda>k. case series_sum (map (\<lambda>r. cell_at r Total_Licences)
                                     (group_rows Federation k df)) of
               Inl e \<Rightarrow> Inl e | Inr n \<Rightarrow> Inr (k, n))
          (group_keys (map (\<lambda>r. cell_at r Federation) (rows df))) = Inr gs"
    by (intro collect_total) blast
  then show ?thesis
    using True assms(1) ic
    by (auto simp: plot_top_federations_def groupby_sum_def int_column_def)
qed

end
